theory Spec2Isabelle
  imports Complex_Main "HOL-Library.Word"
begin

section \<open>Python values, exceptions and byte buffers\<close>

text \<open>
  The decoder of \<^verbatim>\<open>TMdecoder.py\<close> works on \<^verbatim>\<open>bytes\<close> objects. A byte is an
  8-bit word, a buffer a list of bytes. Python integers are unbounded (\<open>int\<close>).
  Python and numpy floats are idealised as real numbers: rounding is not part of
  this model. Every exception the code can raise is a value of \<open>py_error\<close>, and a
  function that can raise returns \<open>py_error + 'a\<close>.

  \<open>OutsideModel\<close> is not a Python exception. It marks the inputs on which reading
  floats as reals would be wrong, because the floating-point computation underflows or
  overflows there: on them the model makes no statement about the code.
\<close>

type_synonym byte = "8 word"

datatype py_error =
    StructError
  | IndexError
  | KeyError
  | TypeError
  | ValueError
  | ZeroDivisionError
  | ExpatError
  | UnicodeDecodeError
  | OutsideModel

text \<open>Sequencing of fallible steps: the first exception ends the computation.\<close>

definition and_then :: "py_error + 'a \<Rightarrow> ('a \<Rightarrow> py_error + 'b) \<Rightarrow> py_error + 'b" where
  "and_then m f = (case m of Inl e \<Rightarrow> Inl e | Inr x \<Rightarrow> f x)"

text \<open>
  A numpy \<^verbatim>\<open>float64\<close> does not raise on a division by zero: it yields \<^verbatim>\<open>inf\<close> or
  \<^verbatim>\<open>nan\<close> (with a warning). \<open>NonFinite\<close> stands for these two; every operation of this
  program on a non-finite operand yields a non-finite result again.
\<close>

datatype npfloat = Finite real | NonFinite

fun np_mul :: "npfloat \<Rightarrow> real \<Rightarrow> npfloat" where
  "np_mul (Finite a) b = Finite (a * b)"
| "np_mul NonFinite b = NonFinite"

fun np_div_py :: "npfloat \<Rightarrow> real \<Rightarrow> npfloat" where
  "np_div_py (Finite a) b = (if b = 0 then NonFinite else Finite (a / b))"
| "np_div_py NonFinite b = NonFinite"

fun np_div :: "npfloat \<Rightarrow> npfloat \<Rightarrow> npfloat" where
  "np_div (Finite a) (Finite b) = (if b = 0 then NonFinite else Finite (a / b))"
| "np_div NonFinite b = NonFinite"
| "np_div a NonFinite = NonFinite"

fun py_sub_np :: "real \<Rightarrow> npfloat \<Rightarrow> npfloat" where
  "py_sub_np a (Finite b) = Finite (a - b)"
| "py_sub_np a NonFinite = NonFinite"

subsection \<open>Slices and \<^verbatim>\<open>struct.unpack_from\<close>\<close>

text \<open>\<^verbatim>\<open>buf[i:j]\<close> for \<open>0 \<le> i \<le> j\<close>: the slice is cut at the end of the buffer.\<close>

definition slice :: "'a list \<Rightarrow> nat \<Rightarrow> nat \<Rightarrow> 'a list" where
  "slice buf i j = take (j - i) (drop i buf)"

text \<open>Big-endian value of a byte string.\<close>

definition be_uint :: "byte list \<Rightarrow> int" where
  "be_uint bs = foldl (\<lambda>acc b. acc * 256 + uint b) 0 bs"

text \<open>
  \<^verbatim>\<open>struct.unpack_from(fmt, buffer, offset)[0]\<close> raises \<^verbatim>\<open>struct.error\<close> unless the
  buffer holds \<open>n\<close> bytes from \<open>offset\<close> on.
\<close>

definition unpack_bytes :: "nat \<Rightarrow> byte list \<Rightarrow> nat \<Rightarrow> py_error + byte list" where
  "unpack_bytes n buf off =
     (if off + n \<le> length buf then Inr (slice buf off (off + n)) else Inl StructError)"

definition unpack_B :: "byte list \<Rightarrow> nat \<Rightarrow> py_error + int" where
  "unpack_B buf off = and_then (unpack_bytes 1 buf off) (\<lambda>bs. Inr (be_uint bs))"

definition unpack_H :: "byte list \<Rightarrow> nat \<Rightarrow> py_error + int" where
  "unpack_H buf off = and_then (unpack_bytes 2 buf off) (\<lambda>bs. Inr (be_uint bs))"

definition unpack_L :: "byte list \<Rightarrow> nat \<Rightarrow> py_error + int" where
  "unpack_L buf off = and_then (unpack_bytes 4 buf off) (\<lambda>bs. Inr (be_uint bs))"

text \<open>Format \<^verbatim>\<open>>l\<close>: the four bytes read as a two's complement number.\<close>

definition unpack_l :: "byte list \<Rightarrow> nat \<Rightarrow> py_error + int" where
  "unpack_l buf off =
     and_then (unpack_bytes 4 buf off) (\<lambda>bs. Inr (sint (word_of_int (be_uint bs) :: 32 word)))"

section \<open>Vapor-pressure model\<close>

text \<open>
  \<^verbatim>\<open>Hardy_1998\<close>: the loop over the coefficients \<^verbatim>\<open>HC\<close> with its counter \<^verbatim>\<open>i\<close>, then
  the logarithm term and the exponential.

  \<^item> At \<open>TK = 0\<close> the first step of the loop, \<^verbatim>\<open>TK**(i-2)\<close> with the exponent -2 on a
    Python float, raises \<^verbatim>\<open>ZeroDivisionError\<close>.
  \<^item> For every temperature a record can carry, from -100 to 555.35 degrees (a 16-bit
    raw value divided by 100, minus 100), the floats stay far from underflow and
    overflow, and the result is the real value of the formula, up to rounding.
  \<^item> For any other temperature what the code does depends on the floating-point
    range: \<^verbatim>\<open>np.exp\<close> underflows to 0.0 within a few degrees above absolute zero and
    for very high temperatures, the powers raise \<^verbatim>\<open>OverflowError\<close> for huge and for
    tiny arguments, and \<^verbatim>\<open>np.log\<close> gives \<^verbatim>\<open>nan\<close> below absolute zero. The model makes
    no statement there.
\<close>

definition HC :: "real list" where
  "HC = [- 2836.5744, - 6028.076559, 19.54263612, - 0.02737830188,
         1.6261698 / 10 ^ 5, 7.0229056 / 10 ^ 10, - 1.8680009 / 10 ^ 13]"

fun Hardy_loop :: "real list \<Rightarrow> real \<Rightarrow> int \<Rightarrow> real \<Rightarrow> real" where
  "Hardy_loop [] TK i lesw = lesw"
| "Hardy_loop (c # cs) TK i lesw = Hardy_loop cs TK (i + 1) (lesw + c * (TK powi (i - 2)))"

definition Hardy_1998 :: "real \<Rightarrow> py_error + npfloat" where
  "Hardy_1998 TC =
     (let TK = TC + 273.15 in
      if TK = 0 then Inl ZeroDivisionError
      else if - 100 \<le> TC \<and> TC \<le> 555.35
      then Inr (Finite (exp (Hardy_loop HC TK 0 0 + 2.7150305 * ln TK) / 100))
      else Inl OutsideModel)"

text \<open>
  \<^verbatim>\<open>WV_mixing_ratio\<close> is called from \<^verbatim>\<open>RS41_RH_wvmr\<close> only, with a numpy number as
  vapor pressure and a Python float as pressure. The difference and the quotient are
  numpy operations: a zero denominator gives \<^verbatim>\<open>inf\<close> or \<^verbatim>\<open>nan\<close>, not an exception.
  The mass mixing ratio \<^verbatim>\<open>WV_ppmm\<close>, computed by the same division and not returned,
  is left out.
\<close>

definition WV_mixing_ratio :: "npfloat \<Rightarrow> real \<Rightarrow> npfloat" where
  "WV_mixing_ratio ew_hPa prshPa =
     np_mul (np_div ew_hPa (py_sub_np prshPa ew_hPa)) 1000000"

definition RS41_RH_wvmr :: "real \<Rightarrow> real \<Rightarrow> real \<Rightarrow> real \<Rightarrow> py_error + npfloat \<times> npfloat" where
  "RS41_RH_wvmr TC_ambient hPa_ambient rh_reported TC_humSensor =
     and_then (Hardy_1998 TC_humSensor) (\<lambda>eswhPa_humSensor_temp.
     and_then (Hardy_1998 TC_ambient) (\<lambda>eswhPa_ambient_temp.
       let ew_hPa = np_div_py (np_mul eswhPa_humSensor_temp rh_reported) 100;
           RH_ambient = np_mul (np_div ew_hPa eswhPa_ambient_temp) 100;
           WV_ppmv = WV_mixing_ratio ew_hPa hPa_ambient
       in Inr (RH_ambient, WV_ppmv)))"

section \<open>RS41 record decoder\<close>

record RS41sample =
  valid :: int
  secs_from_start :: int
  air_temp_degC :: real
  humdity_percent :: real
  humidity_sensor_temp_degC :: real
  pres_mb :: real
  module_error :: int
  rs41_rh_percent :: npfloat
  wv_mixing_ratio_ppmv :: npfloat

record RS41record = RS41sample +
  unix_time :: int

definition decodeRS41sample :: "byte list \<Rightarrow> py_error + RS41sample" where
  "decodeRS41sample rec =
     and_then (unpack_B rec 0) (\<lambda>v.
     and_then (unpack_l rec 1) (\<lambda>secs.
     and_then (unpack_H rec 5) (\<lambda>t.
     and_then (unpack_H rec 7) (\<lambda>h.
     and_then (unpack_H rec 9) (\<lambda>ts.
     and_then (unpack_H rec 11) (\<lambda>p.
     and_then (unpack_H rec 13) (\<lambda>err.
       let air = real_of_int t / 100 - 100;
           hum = real_of_int h / 100;
           hst = real_of_int ts / 100 - 100;
           prs = real_of_int p / 50
       in and_then (RS41_RH_wvmr air prs hum hst) (\<lambda>(rh, wv).
            Inr \<lparr>valid = v, secs_from_start = secs, air_temp_degC = air,
                 humdity_percent = hum, humidity_sensor_temp_degC = hst, pres_mb = prs,
                 module_error = err, rs41_rh_percent = rh,
                 wv_mixing_ratio_ppmv = wv\<rparr>))))))))"

text \<open>
  \<^verbatim>\<open>allRS41samples\<close>: the loop \<^verbatim>\<open>for i in range(6, len(self.bindata)-6, record_len)\<close>
  with \<^verbatim>\<open>record_len = 15\<close>. The bound \<^verbatim>\<open>len(self.bindata)-6\<close> is a Python integer and
  may be negative. The first exception of a decoding step ends the loop.
\<close>

function RS41_loop :: "byte list \<Rightarrow> nat \<Rightarrow> py_error + RS41sample list" where
  "RS41_loop bindata i =
     (if int i < int (length bindata) - 6
      then (case decodeRS41sample (slice bindata i (i + 15)) of
              Inl e \<Rightarrow> Inl e
            | Inr r \<Rightarrow> (case RS41_loop bindata (i + 15) of
                         Inl e \<Rightarrow> Inl e
                       | Inr records \<Rightarrow> Inr (r # records)))
      else Inr [])"
  by pat_completeness auto
termination
  by (relation "measure (\<lambda>(bindata, i). length bindata - i)") auto

declare RS41_loop.simps [simp del]

definition with_unix_time :: "RS41sample \<Rightarrow> int \<Rightarrow> RS41record" where
  "with_unix_time r t =
     \<lparr>valid = valid r, secs_from_start = secs_from_start r, air_temp_degC = air_temp_degC r,
      humdity_percent = humdity_percent r,
      humidity_sensor_temp_degC = humidity_sensor_temp_degC r, pres_mb = pres_mb r,
      module_error = module_error r, rs41_rh_percent = rs41_rh_percent r,
      wv_mixing_ratio_ppmv = wv_mixing_ratio_ppmv r, unix_time = t\<rparr>"

text \<open>\<^verbatim>\<open>records[-1]\<close> raises \<^verbatim>\<open>IndexError\<close> on the empty list.\<close>

definition allRS41samples :: "int \<Rightarrow> byte list \<Rightarrow> py_error + RS41record list" where
  "allRS41samples unix_end_time bindata =
     and_then (RS41_loop bindata 6) (\<lambda>records.
       if records = [] then Inl IndexError
       else
         let start_time = unix_end_time
               - (secs_from_start (last records) - secs_from_start (hd records) + 1)
         in Inr (map (\<lambda>r. with_unix_time r (secs_from_start r + start_time)) records))"

section \<open>LPC frame decoder\<close>

record LPCframe =
  HGBins :: "real list"
  LGBins :: "real list"
  HKData :: "real list"

text \<open>The inner loop \<^verbatim>\<open>for x in range(16)\<close> of \<^verbatim>\<open>unpackBinary\<close>.\<close>

fun LPC_bins :: "byte list \<Rightarrow> nat \<Rightarrow> nat list \<Rightarrow> py_error + int list \<times> int list \<times> int list" where
  "LPC_bins bindata indx [] = Inr ([], [], [])"
| "LPC_bins bindata indx (x # xs) =
     and_then (unpack_H bindata (indx + x * 2)) (\<lambda>hg.
     and_then (unpack_H bindata (indx + x * 2 + 32)) (\<lambda>lg.
     and_then (unpack_H bindata (indx + x * 2 + 64)) (\<lambda>hk.
     and_then (LPC_bins bindata indx xs) (\<lambda>(hgs, lgs, hks).
       Inr (hg # hgs, lg # lgs, hk # hks)))))"

definition LPC_housekeeping :: "int \<Rightarrow> int list \<Rightarrow> real list" where
  "LPC_housekeeping unix_end_time HKRaw =
     [real_of_int (HKRaw ! 0 + unix_end_time),
      real_of_int (HKRaw ! 1), real_of_int (HKRaw ! 2), real_of_int (HKRaw ! 3),
      real_of_int (HKRaw ! 4) / 1000, real_of_int (HKRaw ! 5) / 1000,
      real_of_int (HKRaw ! 6) / 1000, real_of_int (HKRaw ! 7) / 1000,
      real_of_int (HKRaw ! 8) / 1000,
      real_of_int (HKRaw ! 9), real_of_int (HKRaw ! 10),
      real_of_int (HKRaw ! 11) / 100 - 273.15, real_of_int (HKRaw ! 12) / 100 - 273.15,
      real_of_int (HKRaw ! 13) / 100 - 273.15, real_of_int (HKRaw ! 14) / 100 - 273.15,
      real_of_int (HKRaw ! 15) / 100 - 273.15]"

definition LPC_frame :: "int \<Rightarrow> byte list \<Rightarrow> nat \<Rightarrow> py_error + LPCframe" where
  "LPC_frame unix_end_time bindata y =
     (let indx = 36 + (y + 1) * 96
      in and_then (LPC_bins bindata indx [0..<16]) (\<lambda>(hgs, lgs, HKRaw).
           Inr \<lparr>HGBins = map real_of_int hgs, LGBins = map real_of_int lgs,
                HKData = LPC_housekeeping unix_end_time HKRaw\<rparr>))"

text \<open>The outer loop \<^verbatim>\<open>for y in range(records)\<close>, column \<open>y\<close> of the three arrays.\<close>

fun LPC_frames :: "int \<Rightarrow> byte list \<Rightarrow> nat list \<Rightarrow> py_error + LPCframe list" where
  "LPC_frames unix_end_time bindata [] = Inr []"
| "LPC_frames unix_end_time bindata (y # ys) =
     and_then (LPC_frame unix_end_time bindata y) (\<lambda>f.
     and_then (LPC_frames unix_end_time bindata ys) (\<lambda>fs. Inr (f # fs)))"

text \<open>
  \<^verbatim>\<open>records = int(len(self.bindata)/96) - 2\<close>; \<^verbatim>\<open>np.zeros(shape=(16,records))\<close> raises
  \<^verbatim>\<open>ValueError\<close> for a negative dimension.
\<close>

definition unpackBinary :: "int \<Rightarrow> byte list \<Rightarrow> py_error + LPCframe list" where
  "unpackBinary unix_end_time bindata =
     (let records = int (length bindata) div 96 - 2
      in if records < 0 then Inl ValueError
         else LPC_frames unix_end_time bindata [0..<nat records])"

section \<open>Container framer\<close>

text \<open>\<^verbatim>\<open>bytes.find\<close>: the lowest index at which \<open>sub\<close> occurs, or \<open>-1\<close>.\<close>

fun find_at :: "'a list \<Rightarrow> 'a list \<Rightarrow> nat \<Rightarrow> int" where
  "find_at [] sub k = (if sub = [] then int k else - 1)"
| "find_at (x # xs) sub k =
     (if take (length sub) (x # xs) = sub then int k else find_at xs sub (Suc k))"

definition find :: "'a list \<Rightarrow> 'a list \<Rightarrow> int" where
  "find buf sub = find_at buf sub 0"

text \<open>
  \<^verbatim>\<open>buf[i:j]\<close> for arbitrary integers: a negative bound counts from the end, and both
  bounds are clipped to the buffer.
\<close>

definition py_index :: "nat \<Rightarrow> int \<Rightarrow> nat" where
  "py_index n i = (if i < 0 then nat (max 0 (int n + i)) else min n (nat i))"

definition py_slice :: "'a list \<Rightarrow> int \<Rightarrow> int \<Rightarrow> 'a list" where
  "py_slice buf i j =
     (let lo = py_index (length buf) i; hi = py_index (length buf) j
      in take (hi - lo) (drop lo buf))"

text \<open>A byte string literal such as \<^verbatim>\<open>b'<TM>'\<close>.\<close>

definition bytes :: "string \<Rightarrow> byte list" where
  "bytes s = map (\<lambda>c. of_nat (of_char c)) s"

text \<open>
  What \<^verbatim>\<open>xmltodict.parse\<close> returns: nested dictionaries with text leaves, \<^verbatim>\<open>None\<close> for
  an empty element, a list for a repeated element.
\<close>

datatype xml = XNone | XStr string | XDict "(string \<times> xml) list" | XList "xml list"

text \<open>
  The library calls of the framer are parameters of the model: \<^verbatim>\<open>bytes.decode\<close>,
  \<^verbatim>\<open>xmltodict.parse\<close> and \<^verbatim>\<open>int\<close> on a string.
\<close>

record pylib =
  decode :: "byte list \<Rightarrow> py_error + string"
  xmltodict_parse :: "string \<Rightarrow> py_error + xml"
  int_of_str :: "string \<Rightarrow> py_error + int"

fun getitem :: "xml \<Rightarrow> string \<Rightarrow> py_error + xml" where
  "getitem (XDict kvs) k = (case map_of kvs k of None \<Rightarrow> Inl KeyError | Some v \<Rightarrow> Inr v)"
| "getitem x k = Inl TypeError"

fun py_int :: "pylib \<Rightarrow> xml \<Rightarrow> py_error + int" where
  "py_int lib (XStr s) = int_of_str lib s"
| "py_int lib x = Inl TypeError"

text \<open>
  \<^verbatim>\<open>delimitedText\<close>: both markers are searched from the start of the file; a marker
  that is not found gives \<open>-1\<close>, which the slice then reads as an offset. (\<open>stop\<close> is
  the source's \<^verbatim>\<open>end\<close>.)
\<close>

definition delimitedText :: "pylib \<Rightarrow> byte list \<Rightarrow> byte list \<Rightarrow> byte list \<Rightarrow> py_error + string" where
  "delimitedText lib data startTxt endTxt =
     (let start = find data startTxt; stop = find data endTxt
      in decode lib (py_slice data start (stop + int (length endTxt))))"

definition parse_TM_xml :: "pylib \<Rightarrow> byte list \<Rightarrow> py_error + xml" where
  "parse_TM_xml lib data =
     and_then (delimitedText lib data (bytes ''<TM>'') (bytes ''</TM>'')) (xmltodict_parse lib)"

definition parse_CRC_xml :: "pylib \<Rightarrow> byte list \<Rightarrow> py_error + xml" where
  "parse_CRC_xml lib data =
     and_then (delimitedText lib data (bytes ''<CRC>'') (bytes ''</CRC>'')) (xmltodict_parse lib)"

text \<open>The marker \<^verbatim>\<open>b'</CRC>\nSTART'\<close> (12 bytes).\<close>

definition CRC_START :: "byte list" where
  "CRC_START = bytes ''</CRC>'' @ [10] @ bytes ''START''"

definition binaryData :: "pylib \<Rightarrow> byte list \<Rightarrow> py_error + byte list" where
  "binaryData lib data =
     and_then (parse_TM_xml lib data) (\<lambda>tm_xml.
     and_then (getitem tm_xml ''TM'') (\<lambda>tm.
     and_then (getitem tm ''Length'') (\<lambda>len.
     and_then (py_int lib len) (\<lambda>bin_length.
       let bin_start = find data CRC_START + 12
       in Inr (py_slice data bin_start (bin_start + bin_length))))))"

definition timeStamp :: "byte list \<Rightarrow> py_error + int" where
  "timeStamp bindata = unpack_L bindata 0"

text \<open>
  The constructors. \<^verbatim>\<open>TMmsg.__init__\<close> also formats the end time as text for the CSV
  header; that string is not part of the model.
\<close>

record TMmsg =
  data :: "byte list"
  bindata :: "byte list"
  unix_end_time :: int

definition TMmsg_init :: "pylib \<Rightarrow> byte list \<Rightarrow> py_error + TMmsg" where
  "TMmsg_init lib file =
     and_then (binaryData lib file) (\<lambda>payload.
     and_then (timeStamp payload) (\<lambda>t.
       Inr \<lparr>data = file, bindata = payload, unix_end_time = t\<rparr>))"

definition RS41msg_init :: "pylib \<Rightarrow> byte list \<Rightarrow> py_error + TMmsg \<times> RS41record list" where
  "RS41msg_init lib file =
     and_then (TMmsg_init lib file) (\<lambda>msg.
     and_then (allRS41samples (unix_end_time msg) (bindata msg)) (\<lambda>records.
       Inr (msg, records)))"

section \<open>A library instance for plain ASCII containers\<close>

text \<open>
  To run the framer on a concrete file the three library parameters need values.
  \<open>ascii_lib\<close> covers files whose metadata is plain ASCII and whose TM block is flat:
  \<^verbatim>\<open><Root><k>text</k>...</Root>\<close>, without attributes, entities or white space.
  On such text it returns what Python returns; any other text it rejects (Python
  accepts more). Python likewise rejects every text too short to hold an element,
  and a lone opening tag.
\<close>

definition decode_ascii :: "byte list \<Rightarrow> py_error + string" where
  "decode_ascii bs =
     (if \<forall>b \<in> set bs. unat b < 128 then Inr (map (\<lambda>b. char_of (unat b)) bs)
      else Inl UnicodeDecodeError)"

datatype token = Tag string | Text string

fun tokens :: "string \<Rightarrow> string \<Rightarrow> bool \<Rightarrow> token list option" where
  "tokens [] acc in_tag =
     (if in_tag then None else Some (if acc = [] then [] else [Text (rev acc)]))"
| "tokens (c # cs) acc in_tag =
     (if in_tag then
        (if c = CHR ''>'' then map_option (\<lambda>ts. Tag (rev acc) # ts) (tokens cs [] False)
         else if c = CHR ''<'' then None
         else tokens cs (c # acc) True)
      else
        (if c = CHR ''<'' then
           map_option (\<lambda>ts. if acc = [] then ts else Text (rev acc) # ts) (tokens cs [] True)
         else if c = CHR ''>'' then None
         else tokens cs (c # acc) False))"

definition is_name :: "string \<Rightarrow> bool" where
  "is_name s \<longleftrightarrow> s \<noteq> [] \<and>
     (\<forall>c \<in> set s. c \<in> set ''abcdefghijklmnopqrstuvwxyzABCDEFGHIJKLMNOPQRSTUVWXYZ0123456789'') \<and>
     hd s \<notin> set ''0123456789''"

definition is_plain :: "string \<Rightarrow> bool" where
  "is_plain s \<longleftrightarrow> s \<noteq> [] \<and>
     (\<forall>c \<in> set s. c \<in> set ''abcdefghijklmnopqrstuvwxyzABCDEFGHIJKLMNOPQRSTUVWXYZ0123456789.,:+-'')"

fun triples :: "token list \<Rightarrow> (string \<times> xml) list option" where
  "triples [] = Some []"
| "triples (Tag k # Text t # Tag e # rest) =
     (if is_name k \<and> e = CHR ''/'' # k \<and> is_plain t
      then map_option (\<lambda>kvs. (k, XStr t) # kvs) (triples rest) else None)"
| "triples ts = None"

definition flat_xml :: "string \<Rightarrow> py_error + xml" where
  "flat_xml s =
     (case tokens s [] False of
        Some (Tag r # ts) \<Rightarrow>
          (if ts \<noteq> [] \<and> is_name r \<and> last ts = Tag (CHR ''/'' # r) then
             (case triples (butlast ts) of
                Some kvs \<Rightarrow>
                  if distinct (map fst kvs)
                  then Inr (XDict [(r, if kvs = [] then XNone else XDict kvs)])
                  else Inl ExpatError
              | None \<Rightarrow> Inl ExpatError)
           else Inl ExpatError)
      | _ \<Rightarrow> Inl ExpatError)"

definition digit_of :: "char \<Rightarrow> int option" where
  "digit_of c = map_of (zip ''0123456789'' [0, 1, 2, 3, 4, 5, 6, 7, 8, 9]) c"

fun decimal :: "string \<Rightarrow> int \<Rightarrow> int option" where
  "decimal [] acc = Some acc"
| "decimal (c # cs) acc =
     (case digit_of c of None \<Rightarrow> None | Some d \<Rightarrow> decimal cs (acc * 10 + d))"

definition int_of_digits :: "string \<Rightarrow> py_error + int" where
  "int_of_digits s =
     (if s = [] then Inl ValueError
      else case decimal s 0 of None \<Rightarrow> Inl ValueError | Some n \<Rightarrow> Inr n)"

definition ascii_lib :: pylib where
  "ascii_lib = \<lparr>decode = decode_ascii, xmltodict_parse = flat_xml, int_of_str = int_of_digits\<rparr>"

section \<open>Concrete inputs\<close>

text \<open>
  The record of the specification's scenario: valid 1, one second from start, raw
  temperatures 12000, raw humidity 5000, raw pressure 10000, error code 0.
\<close>

definition scenario_sample :: "byte list" where
  "scenario_sample = [1, 0, 0, 0, 1, 0x2E, 0xE0, 0x13, 0x88, 0x2E, 0xE0, 0x27, 0x10, 0, 0]"

text \<open>
  The scenario record with its raw pressure set to zero: the humidity is 50 percent at
  20 degrees, so the vapor pressure is positive and exceeds the pressure.
\<close>

definition zero_pressure_sample :: "byte list" where
  "zero_pressure_sample = [1, 0, 0, 0, 1, 0x2E, 0xE0, 0x13, 0x88, 0x2E, 0xE0, 0, 0, 0, 0]"

text \<open>
  A record without measurements (raw temperature, humidity and pressure fields zero),
  as decoded: both temperatures are -100 degrees, and the mixing ratio is not a
  number, since the quotient is 0/0.
\<close>

definition idle_sample :: "int \<Rightarrow> int \<Rightarrow> int \<Rightarrow> RS41sample" where
  "idle_sample v secs err =
     \<lparr>valid = v, secs_from_start = secs, air_temp_degC = - 100, humdity_percent = 0,
      humidity_sensor_temp_degC = - 100, pres_mb = 0, module_error = err,
      rs41_rh_percent = Finite 0, wv_mixing_ratio_ppmv = NonFinite\<rparr>"

text \<open>
  RS41 payloads: a 6-byte pre-header (end time 100, sample count), records, and the last
  6 bytes. \<open>end_time_payload\<close> holds one record whose counter is 0;
  \<open>two_records_payload\<close> two records with counters 1 and 2.
\<close>

definition end_time_payload :: "byte list" where
  "end_time_payload = [0, 0, 0, 100, 0, 1,
     0, 0, 0, 0, 0, 0, 0, 0, 0, 0, 0, 0, 0, 0, 0,
     0, 0, 0, 0, 0, 0]"

definition two_records_payload :: "byte list" where
  "two_records_payload = [0, 0, 0, 100, 0, 2,
     1, 0, 0, 0, 1, 0, 0, 0, 0, 0, 0, 0, 0, 0, 0,
     1, 0, 0, 0, 2, 0, 0, 0, 0, 0, 0, 0, 0, 0, 0,
     0, 0, 0, 0, 0, 0]"

text \<open>
  \<open>straddling_payload\<close>: 37 bytes, that is one record, ten more bytes, and the last six
  bytes \<open>A1 A2 A3 BB CC A6\<close>. \<open>short_payload\<close>: 21 bytes, nine bytes between the
  pre-header and the last six bytes \<open>01 .. 06\<close>.
\<close>

definition straddling_payload :: "byte list" where
  "straddling_payload = [0, 0, 0, 100, 0, 2,
     0, 0, 0, 0, 0, 0, 0, 0, 0, 0, 0, 0, 0, 0, 0,
     0, 0, 0, 0, 0, 0, 0, 0, 0, 0,
     0xA1, 0xA2, 0xA3, 0xBB, 0xCC, 0xA6]"

definition short_payload :: "byte list" where
  "short_payload = [0, 0, 0, 100, 0, 1,
     0, 0, 0, 0, 0, 0, 0, 0, 0,
     1, 2, 3, 4, 5, 6]"

section \<open>Notions used to state the claims\<close>

text \<open>The unsigned big-endian 16-bit number at offset \<open>k\<close> of a buffer.\<close>

definition be16 :: "byte list \<Rightarrow> nat \<Rightarrow> int" where
  "be16 buf k = uint (buf ! k) * 256 + uint (buf ! (k + 1))"

text \<open>
  The LPC frame made of the 48 numbers at offsets \<open>36 + (y+1)*96 + 2x\<close> (high gain),
  \<open>+ 32\<close> (low gain) and \<open>+ 64\<close> (housekeeping), for \<open>x\<close> from 0 to 15.
\<close>

definition frame_at :: "int \<Rightarrow> byte list \<Rightarrow> nat \<Rightarrow> LPCframe" where
  "frame_at t b y =
     \<lparr>HGBins = map (\<lambda>x. real_of_int (be16 b (36 + (y + 1) * 96 + x * 2))) [0..<16],
      LGBins = map (\<lambda>x. real_of_int (be16 b (36 + (y + 1) * 96 + x * 2 + 32))) [0..<16],
      HKData = LPC_housekeeping t (map (\<lambda>x. be16 b (36 + (y + 1) * 96 + x * 2 + 64)) [0..<16])\<rparr>"

section \<open>Container files\<close>

text \<open>
  Containers for \<open>ascii_lib\<close>. \<open>crc_file\<close> is complete: TM block with Length 27,
  CRC block, the marker, the 27 payload bytes of \<open>end_time_payload\<close>, six more bytes.
  \<open>no_crc_open_file\<close> lacks the opening \<^verbatim>\<open><CRC>\<close>; \<open>no_tm_close_file\<close> lacks the
  closing \<^verbatim>\<open></TM>\<close>; \<open>overdeclared_file\<close> declares Length 100 and holds 27 bytes
  after the marker.
\<close>

definition crc_file :: "byte list" where
  "crc_file = bytes ''<TM><Length>27</Length></TM><CRC>1A2B</CRC>'' @ [10] @ bytes ''START''
     @ end_time_payload @ bytes ''ENDEND''"


definition overdeclared_file :: "byte list" where
  "overdeclared_file = bytes ''<TM><Length>100</Length></TM><CRC>1A2B</CRC>'' @ [10]
     @ bytes ''START'' @ end_time_payload"


section \<open>Further notions used to state the claims\<close>

text \<open>
  The declared payload length: \<^verbatim>\<open>int(tm_xml['TM']['Length'])\<close>, as \<^verbatim>\<open>binaryData\<close>
  computes it.
\<close>

definition declared_length :: "pylib \<Rightarrow> byte list \<Rightarrow> py_error + int" where
  "declared_length lib file =
     and_then (parse_TM_xml lib file) (\<lambda>tm_xml.
     and_then (getitem tm_xml ''TM'') (\<lambda>tm.
     and_then (getitem tm ''Length'') (\<lambda>len. py_int lib len)))"


text \<open>
  The saturation vapor pressure (hPa) of the Hardy fit, the value of \<^verbatim>\<open>Hardy_1998\<close>
  at every temperature a record can carry.
\<close>

definition es_hPa :: "real \<Rightarrow> real" where
  "es_hPa TC = exp (Hardy_loop HC (TC + 273.15) 0 0 + 2.7150305 * ln (TC + 273.15)) / 100"

section \<open>Reading fields from a buffer\<close>

lemma slice2: "off + 2 \<le> length buf \<Longrightarrow> slice buf off (off + 2) = [buf ! off, buf ! (off + 1)]"
  unfolding slice_def
  by (simp add: take_Suc_conv_app_nth numeral_2_eq_2)

lemma slice1: "off + 1 \<le> length buf \<Longrightarrow> slice buf off (off + 1) = [buf ! off]"
  unfolding slice_def
  by (simp add: take_Suc_conv_app_nth)

lemma slice1_Suc: "Suc off \<le> length buf \<Longrightarrow> slice buf off (Suc off) = [buf ! off]"
  using slice1 [of off buf] by simp

lemma slice2_Suc:
  "Suc (Suc off) \<le> length buf \<Longrightarrow> slice buf off (Suc (Suc off)) = [buf ! off, buf ! Suc off]"
  using slice2 [of off buf] by simp

lemma slice4: "off + 4 \<le> length buf \<Longrightarrow> slice buf off (off + 4) = [buf ! off, buf ! (off + 1), buf ! (off + 2), buf ! (off + 3)]"
  unfolding slice_def
  by (simp add: take_Suc_conv_app_nth numeral_eq_Suc)

lemma sint32:
  assumes "0 \<le> u" "u < 2 ^ 32"
  shows "sint (word_of_int u :: 32 word) = (if u < 2 ^ 31 then u else u - 2 ^ 32)"
proof -
  have s: "sint (word_of_int u :: 32 word) = (u + 2 ^ 31) mod 2 ^ 32 - 2 ^ 31"
    by (simp add: signed_of_int signed_take_bit_eq_take_bit_shift take_bit_eq_mod)
  show ?thesis
  proof (cases "u < 2 ^ 31")
    case True
    with assms have "(u + 2 ^ 31) mod 2 ^ 32 = u + 2 ^ 31"
      by (intro mod_pos_pos_trivial) simp_all
    with True s show ?thesis by simp
  next
    case False
    with assms have "(u + 2 ^ 31 - 2 ^ 32) mod 2 ^ 32 = u + 2 ^ 31 - 2 ^ 32"
      by (intro mod_pos_pos_trivial) simp_all
    moreover have "(u + 2 ^ 31 - 2 ^ 32) mod 2 ^ 32 = (u + 2 ^ 31) mod (2 ^ 32 :: int)"
      by (rule minus_mod_self2)
    ultimately show ?thesis using False s by simp
  qed
qed

lemma be_uint2: "be_uint [a, b] = uint a * 256 + uint b"
  by (simp add: be_uint_def)

lemma be_uint4: "be_uint [a, b, c, d] = ((uint a * 256 + uint b) * 256 + uint c) * 256 + uint d"
  by (simp add: be_uint_def)

lemma be_uint4_bounds: "0 \<le> be_uint [a, b, c, d] \<and> be_uint [a, b, c, d] < 2 ^ 32"
proof -
  have "uint a < 256" "uint b < 256" "uint c < 256" "uint d < 256" "0 \<le> uint a" "0 \<le> uint b" "0 \<le> uint c" "0 \<le> uint d"
    using uint_bounded [of a] uint_bounded [of b] uint_bounded [of c] uint_bounded [of d] by simp_all
  then show ?thesis unfolding be_uint4 by simp
qed

lemma unpack_B_nth: "off + 1 \<le> length buf \<Longrightarrow> unpack_B buf off = Inr (uint (buf ! off))"
  by (simp add: unpack_B_def unpack_bytes_def and_then_def slice1_Suc be_uint_def)

lemma unpack_H_nth:
  "off + 2 \<le> length buf \<Longrightarrow> unpack_H buf off = Inr (uint (buf ! off) * 256 + uint (buf ! (off + 1)))"
  by (simp add: unpack_H_def unpack_bytes_def and_then_def slice2_Suc be_uint2)

lemma unpack_L_nth:
  "off + 4 \<le> length buf \<Longrightarrow>
   unpack_L buf off = Inr (((uint (buf ! off) * 256 + uint (buf ! (off + 1))) * 256
      + uint (buf ! (off + 2))) * 256 + uint (buf ! (off + 3)))"
  by (simp add: unpack_L_def unpack_bytes_def and_then_def slice4 be_uint4)

lemma unpack_l_nth:
  assumes "off + 4 \<le> length buf"
  shows "unpack_l buf off =
     Inr (let u = ((uint (buf ! off) * 256 + uint (buf ! (off + 1))) * 256
                    + uint (buf ! (off + 2))) * 256 + uint (buf ! (off + 3))
          in if u < 2 ^ 31 then u else u - 2 ^ 32)"
proof -
  let ?bs = "[buf ! off, buf ! (off + 1), buf ! (off + 2), buf ! (off + 3)]"
  have "unpack_l buf off = Inr (sint (word_of_int (be_uint ?bs) :: 32 word))"
    using assms by (simp add: unpack_l_def unpack_bytes_def and_then_def slice4)
  also have "sint (word_of_int (be_uint ?bs) :: 32 word)
      = (if be_uint ?bs < 2 ^ 31 then be_uint ?bs else be_uint ?bs - 2 ^ 32)"
    using be_uint4_bounds [of "buf ! off" "buf ! (off + 1)" "buf ! (off + 2)" "buf ! (off + 3)"]
    by (intro sint32) simp_all
  finally show ?thesis by (simp add: be_uint4 Let_def)
qed

lemma Hardy_1998_finite:
  assumes "- 100 \<le> TC" "TC \<le> 555.35"
  shows "Hardy_1998 TC =
     Inr (Finite (exp (Hardy_loop HC (TC + 273.15) 0 0 + 2.7150305 * ln (TC + 273.15)) / 100))"
proof -
  have "(273.15::real) = 5463 / 20" by simp
  with assms(1) have "TC + 273.15 \<noteq> 0" by linarith
  with assms show ?thesis by (simp add: Hardy_1998_def Let_def)
qed

lemma record_temperature_range:
  assumes "0 \<le> x" "x \<le> 65535"
  shows "- 100 \<le> real_of_int x / 100 - 100 \<and> real_of_int x / 100 - 100 \<le> 555.35"
proof -
  have "0 \<le> real_of_int x" "real_of_int x \<le> 65535"
    using assms by simp_all
  moreover have "(555.35::real) = 11107 / 20" by simp
  ultimately show ?thesis by linarith
qed

section \<open>The vapor-pressure model at the temperatures of a record\<close>

lemma es_hPa_pos: "0 < es_hPa TC"
  by (simp add: es_hPa_def)

lemma Hardy_1998_es:
  "- 100 \<le> TC \<Longrightarrow> TC \<le> 555.35 \<Longrightarrow> Hardy_1998 TC = Inr (Finite (es_hPa TC))"
  by (simp add: Hardy_1998_finite es_hPa_def)

lemma RS41_RH_wvmr_value:
  assumes "- 100 \<le> Ta" "Ta \<le> 555.35" "- 100 \<le> Ts" "Ts \<le> 555.35"
  shows "RS41_RH_wvmr Ta p rh Ts =
     Inr (Finite (es_hPa Ts * rh / 100 / es_hPa Ta * 100),
          WV_mixing_ratio (Finite (es_hPa Ts * rh / 100)) p)"
  using assms es_hPa_pos [of Ta]
  by (simp add: RS41_RH_wvmr_def Hardy_1998_es and_then_def Let_def)

lemma WV_mixing_ratio_Finite:
  "WV_mixing_ratio (Finite ew) p =
     (if p - ew = 0 then NonFinite else Finite (ew / (p - ew) * 1000000))"
  by (simp add: WV_mixing_ratio_def)

section \<open>Decoding one record\<close>

lemma be16_range: "0 \<le> be16 buf k \<and> be16 buf k \<le> 65535"
proof -
  have "uint (buf ! k) < 256" "uint (buf ! (k + 1)) < 256"
    using uint_bounded [of "buf ! k"] uint_bounded [of "buf ! (k + 1)"] by simp_all
  moreover have "0 \<le> uint (buf ! k)" "0 \<le> uint (buf ! (k + 1))"
    by simp_all
  ultimately show ?thesis unfolding be16_def by linarith
qed

lemma unpack_H_be16: "off + 2 \<le> length buf \<Longrightarrow> unpack_H buf off = Inr (be16 buf off)"
  by (simp add: unpack_H_nth be16_def)

lemma decodeRS41sample_15:
  assumes "length sample = 15"
  shows "decodeRS41sample sample =
     Inr \<lparr>valid = uint (sample ! 0),
          secs_from_start =
            (let u = ((uint (sample ! 1) * 256 + uint (sample ! 2)) * 256 + uint (sample ! 3)) * 256
                      + uint (sample ! 4)
             in if u < 2 ^ 31 then u else u - 2 ^ 32),
          air_temp_degC = real_of_int (be16 sample 5) / 100 - 100,
          humdity_percent = real_of_int (be16 sample 7) / 100,
          humidity_sensor_temp_degC = real_of_int (be16 sample 9) / 100 - 100,
          pres_mb = real_of_int (be16 sample 11) / 50,
          module_error = be16 sample 13,
          rs41_rh_percent =
            Finite (es_hPa (real_of_int (be16 sample 9) / 100 - 100)
                      * (real_of_int (be16 sample 7) / 100) / 100
                      / es_hPa (real_of_int (be16 sample 5) / 100 - 100) * 100),
          wv_mixing_ratio_ppmv =
            WV_mixing_ratio
              (Finite (es_hPa (real_of_int (be16 sample 9) / 100 - 100)
                         * (real_of_int (be16 sample 7) / 100) / 100))
              (real_of_int (be16 sample 11) / 50)\<rparr>"
proof -
  have B: "unpack_B sample 0 = Inr (uint (sample ! 0))"
    using assms by (simp add: unpack_B_nth)
  have l: "unpack_l sample 1 = Inr (let u = ((uint (sample ! 1) * 256 + uint (sample ! 2)) * 256
              + uint (sample ! 3)) * 256 + uint (sample ! 4)
            in if u < 2 ^ 31 then u else u - 2 ^ 32)"
    using assms unpack_l_nth [of 1 sample] by (simp add: numeral_eq_Suc)
  have H: "unpack_H sample 5 = Inr (be16 sample 5)" "unpack_H sample 7 = Inr (be16 sample 7)"
    "unpack_H sample 9 = Inr (be16 sample 9)" "unpack_H sample 11 = Inr (be16 sample 11)"
    "unpack_H sample 13 = Inr (be16 sample 13)"
    using assms by (simp_all add: unpack_H_be16)
  have ta: "- 100 \<le> real_of_int (be16 sample 5) / 100 - 100"
      "real_of_int (be16 sample 5) / 100 - 100 \<le> 555.35"
    using record_temperature_range [of "be16 sample 5"] be16_range [of sample 5] by simp_all
  have ts: "- 100 \<le> real_of_int (be16 sample 9) / 100 - 100"
      "real_of_int (be16 sample 9) / 100 - 100 \<le> 555.35"
    using record_temperature_range [of "be16 sample 9"] be16_range [of sample 9] by simp_all
  have "RS41_RH_wvmr (real_of_int (be16 sample 5) / 100 - 100) (real_of_int (be16 sample 11) / 50)
          (real_of_int (be16 sample 7) / 100) (real_of_int (be16 sample 9) / 100 - 100) =
        Inr (Finite (es_hPa (real_of_int (be16 sample 9) / 100 - 100)
                      * (real_of_int (be16 sample 7) / 100) / 100
                      / es_hPa (real_of_int (be16 sample 5) / 100 - 100) * 100),
             WV_mixing_ratio
              (Finite (es_hPa (real_of_int (be16 sample 9) / 100 - 100)
                         * (real_of_int (be16 sample 7) / 100) / 100))
              (real_of_int (be16 sample 11) / 50))"
    by (rule RS41_RH_wvmr_value [OF ta ts])
  then show ?thesis
    unfolding decodeRS41sample_def B l H by (simp add: and_then_def Let_def)
qed

lemma decode_truncated:
  assumes "length sample < 15"
  shows "decodeRS41sample sample = Inl StructError"
proof -
  have "unpack_H sample 13 = Inl StructError"
    using assms by (simp add: unpack_H_def unpack_bytes_def and_then_def)
  moreover have "\<And>off. unpack_H sample off = Inl StructError \<or> (\<exists>v. unpack_H sample off = Inr v)"
    by (simp add: unpack_H_def unpack_bytes_def and_then_def)
  moreover have "unpack_B sample 0 = Inl StructError \<or> (\<exists>v. unpack_B sample 0 = Inr v)"
    by (simp add: unpack_B_def unpack_bytes_def and_then_def)
  moreover have "unpack_l sample 1 = Inl StructError \<or> (\<exists>v. unpack_l sample 1 = Inr v)"
    by (simp add: unpack_l_def unpack_bytes_def and_then_def)
  ultimately show ?thesis
    unfolding decodeRS41sample_def and_then_def
    by (metis (no_types, lifting) sum.case(1) sum.case(2))
qed

section \<open>The RS41 loop\<close>

lemma RS41_loop_stop: "length b \<le> i + 6 \<Longrightarrow> RS41_loop b i = Inr []"
  by (subst RS41_loop.simps) simp

lemma RS41_loop_step:
  "i + 6 < length b \<Longrightarrow>
   RS41_loop b i =
     (case decodeRS41sample (slice b i (i + 15)) of
        Inl e \<Rightarrow> Inl e
      | Inr r \<Rightarrow> (case RS41_loop b (i + 15) of Inl e \<Rightarrow> Inl e | Inr rs \<Rightarrow> Inr (r # rs)))"
  by (subst RS41_loop.simps) simp

lemma secs_with_unix_time [simp]: "secs_from_start (with_unix_time r t) = secs_from_start r"
  by (simp add: with_unix_time_def)

lemma unix_time_with_unix_time [simp]: "unix_time (with_unix_time r t) = t"
  by (simp add: with_unix_time_def)

lemma module_error_with_unix_time [simp]: "module_error (with_unix_time r t) = module_error r"
  by (simp add: with_unix_time_def)

lemma truncate_with_unix_time [simp]: "RS41sample.truncate (with_unix_time r t) = r"
  by (simp add: with_unix_time_def RS41sample.truncate_def)

lemmas decode_eval = decodeRS41sample_def unpack_B_def unpack_H_def unpack_l_def
  unpack_bytes_def slice_def be_uint_def and_then_def RS41_RH_wvmr_def Hardy_1998_def
  WV_mixing_ratio_def Let_def idle_sample_def

lemma decode_first:
  "decodeRS41sample [1, 0, 0, 0, 1, 0, 0, 0, 0, 0, 0, 0, 0, 0, 0] = Inr (idle_sample 1 1 0)"
  by (simp add: decode_eval)

lemma decode_second:
  "decodeRS41sample [1, 0, 0, 0, 2, 0, 0, 0, 0, 0, 0, 0, 0, 0, 0] = Inr (idle_sample 1 2 0)"
  by (simp add: decode_eval)

lemma decode_zero:
  "decodeRS41sample [0, 0, 0, 0, 0, 0, 0, 0, 0, 0, 0, 0, 0, 0, 0] =
     Inr \<lparr>valid = 0, secs_from_start = 0, air_temp_degC = - 100, humdity_percent = 0,
          humidity_sensor_temp_degC = - 100, pres_mb = 0, module_error = 0,
          rs41_rh_percent = Finite 0, wv_mixing_ratio_ppmv = NonFinite\<rparr>"
  by (simp add: decodeRS41sample_def unpack_B_def unpack_H_def unpack_l_def unpack_bytes_def
      slice_def be_uint_def and_then_def RS41_RH_wvmr_def Hardy_1998_def WV_mixing_ratio_def Let_def)

lemma decode_straddling:
  "decodeRS41sample [0, 0, 0, 0, 0, 0, 0, 0, 0, 0, 0xA1, 0xA2, 0xA3, 0xBB, 0xCC] =
     Inr \<lparr>valid = 0, secs_from_start = 0, air_temp_degC = - 100, humdity_percent = 0,
          humidity_sensor_temp_degC = 161 / 100 - 100, pres_mb = 41635 / 50,
          module_error = 48076, rs41_rh_percent = Finite 0,
          wv_mixing_ratio_ppmv = Finite 0\<rparr>"
  by (simp add: decode_eval)

lemma decode_short:
  "decodeRS41sample [0, 0, 0, 0, 0, 0, 0, 0, 0, 1, 2, 3, 4, 5, 6] =
     Inr \<lparr>valid = 0, secs_from_start = 0, air_temp_degC = - 100, humdity_percent = 0,
          humidity_sensor_temp_degC = 258 / 100 - 100, pres_mb = 772 / 50,
          module_error = 1286, rs41_rh_percent = Finite 0,
          wv_mixing_ratio_ppmv = Finite 0\<rparr>"
  by (simp add: decode_eval)

lemma two_records_eval:
  "allRS41samples 100 two_records_payload =
     Inr [with_unix_time (idle_sample 1 1 0) 99, with_unix_time (idle_sample 1 2 0) 100]"
  by (simp add: two_records_payload_def allRS41samples_def RS41_loop_step RS41_loop_stop
      slice_def decode_first decode_second and_then_def Let_def idle_sample_def)

lemma end_time_payload_stamp: "timeStamp end_time_payload = Inr 100"
  by (simp add: end_time_payload_def timeStamp_def unpack_L_def unpack_bytes_def slice_def
      be_uint_def and_then_def)

lemma end_time_payload_eval:
  "allRS41samples 100 end_time_payload = Inr [with_unix_time (idle_sample 0 0 0) 99]"
  by (simp add: end_time_payload_def allRS41samples_def RS41_loop_step RS41_loop_stop
      slice_def decode_zero and_then_def Let_def idle_sample_def)

lemma allRS41samples_no_room:
  assumes "length b \<le> 12"
  shows "allRS41samples t b = Inl IndexError"
  using assms by (simp add: allRS41samples_def RS41_loop_stop and_then_def)

lemma allRS41samples_truncated:
  assumes "12 < length b" "length b < 21"
  shows "allRS41samples t b = Inl StructError"
proof -
  have "length (slice b 6 (6 + 15)) < 15" using assms by (simp add: slice_def)
  then have "decodeRS41sample (slice b 6 (6 + 15)) = Inl StructError"
    by (rule decode_truncated)
  moreover have "6 + 6 < length b" using assms by simp
  ultimately have "RS41_loop b 6 = Inl StructError"
    by (simp add: RS41_loop_step)
  then show ?thesis by (simp add: allRS41samples_def and_then_def)
qed

lemma allRS41samples_one_record:
  assumes "21 \<le> length b" "length b \<le> 27"
  shows "\<exists>r. decodeRS41sample (slice b 6 21) = Inr r \<and>
     allRS41samples t b = Inr [with_unix_time r (secs_from_start r + (t - 1))]"
proof -
  have "length (slice b 6 21) = 15" using assms by (simp add: slice_def)
  then obtain r where r: "decodeRS41sample (slice b 6 21) = Inr r"
    by (simp add: decodeRS41sample_15)
  have "RS41_loop b 21 = Inr []" using assms by (simp add: RS41_loop_stop)
  moreover have "6 + 6 < length b" using assms by simp
  ultimately have "RS41_loop b 6 = Inr [r]"
    using r by (simp add: RS41_loop_step)
  then have "allRS41samples t b = Inr [with_unix_time r (secs_from_start r + (t - 1))]"
    by (simp add: allRS41samples_def and_then_def Let_def)
  with r show ?thesis by blast
qed

section \<open>The LPC loops\<close>

lemma LPC_bins_ok:
  assumes "\<forall>x \<in> set xs. indx + x * 2 + 66 \<le> length b"
  shows "LPC_bins b indx xs =
     Inr (map (\<lambda>x. be16 b (indx + x * 2)) xs,
          map (\<lambda>x. be16 b (indx + x * 2 + 32)) xs,
          map (\<lambda>x. be16 b (indx + x * 2 + 64)) xs)"
  using assms
proof (induction xs)
  case Nil
  then show ?case by simp
next
  case (Cons x xs)
  then have "indx + x * 2 + 66 \<le> length b" by simp
  then have "unpack_H b (indx + x * 2) = Inr (be16 b (indx + x * 2))"
    "unpack_H b (indx + x * 2 + 32) = Inr (be16 b (indx + x * 2 + 32))"
    "unpack_H b (indx + x * 2 + 64) = Inr (be16 b (indx + x * 2 + 64))"
    by (simp_all add: unpack_H_be16)
  moreover have "LPC_bins b indx xs =
     Inr (map (\<lambda>x. be16 b (indx + x * 2)) xs,
          map (\<lambda>x. be16 b (indx + x * 2 + 32)) xs,
          map (\<lambda>x. be16 b (indx + x * 2 + 64)) xs)"
    using Cons by simp
  ultimately show ?case by (simp add: and_then_def)
qed

lemma LPC_frame_ok:
  assumes "36 + (y + 2) * 96 \<le> length b"
  shows "LPC_frame t b y = Inr (frame_at t b y)"
proof -
  have "\<forall>x \<in> set [0..<16]. 36 + (y + 1) * 96 + x * 2 + 66 \<le> length b"
    using assms by auto
  then show ?thesis
    by (simp add: LPC_frame_def Let_def LPC_bins_ok and_then_def frame_at_def comp_def del: upt.simps)
qed

lemma LPC_frames_ok:
  assumes "\<forall>y \<in> set ys. 36 + (y + 2) * 96 \<le> length b"
  shows "LPC_frames t b ys = Inr (map (frame_at t b) ys)"
  using assms by (induction ys) (simp_all add: LPC_frame_ok and_then_def)

lemma unpackBinary_ok:
  assumes "192 \<le> length b"
  shows "unpackBinary t b = Inr (map (frame_at t b) [0..<length b div 96 - 2])"
proof -
  let ?n = "length b div 96"
  have n2: "2 \<le> ?n" using assms by simp
  have rec: "int (length b) div 96 - 2 = int (?n - 2)"
    using n2 by (simp add: zdiv_int)
  have "\<forall>y \<in> set [0..<?n - 2]. 36 + (y + 2) * 96 \<le> length b"
  proof
    fix y assume "y \<in> set [0..<?n - 2]"
    then have "y + 3 \<le> ?n" by simp
    then have "(y + 3) * 96 \<le> ?n * 96" by simp
    also have "\<dots> \<le> length b" by simp
    finally show "36 + (y + 2) * 96 \<le> length b" by simp
  qed
  then show ?thesis
    unfolding unpackBinary_def Let_def rec by (simp add: LPC_frames_ok)
qed

lemma unpackBinary_too_short:
  assumes "length b < 192"
  shows "unpackBinary t b = Inl ValueError"
proof -
  have "length b div 96 < 2" using assms by simp
  then have "int (length b) div 96 - 2 < 0" by (simp add: zdiv_int)
  then show ?thesis by (simp add: unpackBinary_def Let_def)
qed

section \<open>Searching and slicing\<close>

lemma find_at_cases:
  "find_at xs sub k = - 1 \<or>
   (\<exists>j. find_at xs sub k = int (k + j) \<and> j + length sub \<le> length xs
        \<and> take (length sub) (drop j xs) = sub)"
proof (induction xs arbitrary: k)
  case Nil
  then show ?case by auto
next
  case (Cons x xs)
  show ?case
  proof (cases "take (length sub) (x # xs) = sub")
    case True
    then have "length (take (length sub) (x # xs)) = length sub"
      by (rule arg_cong)
    then have "length sub \<le> length (x # xs)"
      unfolding length_take by linarith
    with True have "find_at (x # xs) sub k = int (k + 0) \<and> 0 + length sub \<le> length (x # xs)
        \<and> take (length sub) (drop 0 (x # xs)) = sub" by simp
    then show ?thesis by blast
  next
    case False
    then have eq: "find_at (x # xs) sub k = find_at xs sub (Suc k)" by simp
    from Cons [of "Suc k"] show ?thesis
    proof
      assume "find_at xs sub (Suc k) = - 1"
      with eq show ?thesis by simp
    next
      assume "\<exists>j. find_at xs sub (Suc k) = int (Suc k + j) \<and> j + length sub \<le> length xs
        \<and> take (length sub) (drop j xs) = sub"
      then obtain j where "find_at xs sub (Suc k) = int (Suc k + j)" "j + length sub \<le> length xs"
        "take (length sub) (drop j xs) = sub" by blast
      with eq have "find_at (x # xs) sub k = int (k + Suc j) \<and> Suc j + length sub \<le> length (x # xs)
        \<and> take (length sub) (drop (Suc j) (x # xs)) = sub" by simp
      then show ?thesis by blast
    qed
  qed
qed

lemma find_cases:
  "find buf sub = - 1 \<or>
   (\<exists>j. find buf sub = int j \<and> j + length sub \<le> length buf
        \<and> take (length sub) (drop j buf) = sub)"
  using find_at_cases [of buf sub 0] by (simp add: find_def)

lemma find_found:
  assumes "find buf sub = int k"
  shows "k + length sub \<le> length buf \<and> take (length sub) (drop k buf) = sub"
  using find_cases [of buf sub] assms by auto



lemma py_slice_inside:
  assumes "0 \<le> n" "k + nat n \<le> length buf"
  shows "py_slice buf (int k) (int k + n) = slice buf k (k + nat n)"
proof -
  have "py_index (length buf) (int k) = k"
    using assms by (simp add: py_index_def)
  moreover have "py_index (length buf) (int k + n) = k + nat n"
    using assms by (simp add: py_index_def nat_add_distrib)
  ultimately show ?thesis by (simp add: py_slice_def slice_def Let_def)
qed

lemma py_slice_beyond:
  assumes "0 \<le> s" "int (length buf) - s < n"
  shows "py_slice buf s (s + n) = drop (nat s) buf"
proof -
  have lo: "py_index (length buf) s = min (length buf) (nat s)"
    using assms by (simp add: py_index_def)
  have "int (length buf) < s + n" using assms by simp
  then have hi: "py_index (length buf) (s + n) = length buf"
    by (simp add: py_index_def)
  show ?thesis
  proof (cases "nat s \<le> length buf")
    case True
    then show ?thesis by (simp add: py_slice_def Let_def lo hi min_def)
  next
    case False
    then show ?thesis by (simp add: py_slice_def Let_def lo hi min_def)
  qed
qed

lemma length_bytes [simp]: "length (bytes s) = length s"
  by (simp add: bytes_def)



lemma binaryData_declared:
  "binaryData lib file =
     and_then (declared_length lib file) (\<lambda>n.
       Inr (py_slice file (find file CRC_START + 12) (find file CRC_START + 12 + n)))"
  by (simp add: binaryData_def declared_length_def and_then_def Let_def split: sum.splits)

section \<open>The ASCII library instance and the container files\<close>




lemma RS41msg_init_eval:
  assumes "binaryData lib file = Inr end_time_payload"
  shows "RS41msg_init lib file =
     Inr (\<lparr>data = file, bindata = end_time_payload, unix_end_time = 100\<rparr>,
          [with_unix_time (idle_sample 0 0 0) 99])"
  using assms
  by (simp add: RS41msg_init_def TMmsg_init_def and_then_def end_time_payload_stamp
      end_time_payload_eval)

lemma crc_file_length: "declared_length ascii_lib crc_file = Inr 27"
  by code_simp

lemma crc_file_marker: "find crc_file CRC_START = 37"
  by code_simp

lemma crc_file_close: "find crc_file (bytes ''</CRC>'') = 37"
  by code_simp

lemma crc_file_payload: "slice crc_file 49 76 = end_time_payload"
  by code_simp

lemma crc_file_later: "slice crc_file 55 82 \<noteq> end_time_payload"
  by code_simp

lemma crc_file_size: "length crc_file = 82"
  by code_simp




lemma overdeclared_length: "declared_length ascii_lib overdeclared_file = Inr 100"
  by code_simp

lemma overdeclared_marker: "find overdeclared_file CRC_START = 38"
  by code_simp

lemma overdeclared_binary: "binaryData ascii_lib overdeclared_file = Inr end_time_payload"
  by code_simp

section \<open>Claims about the RS41 record layout\<close>

text \<open>
  C1. Every 15-byte record slice decodes without an exception, and the decoded fields
  are: validity, the unsigned byte at offset 0; seconds from start, the signed
  big-endian 32-bit number at offset 1; air temperature, the unsigned big-endian 16-bit
  number at offset 5 divided by 100, minus 100; humidity, the one at offset 7 divided by
  100; humidity-sensor temperature, the one at offset 9 divided by 100, minus 100;
  pressure, the one at offset 11 divided by 50; error code, the one at offset 13
  unchanged. (Divisions are exact: floats are read as reals.)
\<close>

theorem decodeRS41sample_layout:
  assumes "length sample = 15"
  shows "\<exists>r. decodeRS41sample sample = Inr r
     \<and> valid r = uint (sample ! 0)
     \<and> secs_from_start r =
         (let u = ((uint (sample ! 1) * 256 + uint (sample ! 2)) * 256 + uint (sample ! 3)) * 256
                   + uint (sample ! 4)
          in if u < 2 ^ 31 then u else u - 2 ^ 32)
     \<and> air_temp_degC r = real_of_int (uint (sample ! 5) * 256 + uint (sample ! 6)) / 100 - 100
     \<and> humdity_percent r = real_of_int (uint (sample ! 7) * 256 + uint (sample ! 8)) / 100
     \<and> humidity_sensor_temp_degC r =
         real_of_int (uint (sample ! 9) * 256 + uint (sample ! 10)) / 100 - 100
     \<and> pres_mb r = real_of_int (uint (sample ! 11) * 256 + uint (sample ! 12)) / 50
     \<and> module_error r = uint (sample ! 13) * 256 + uint (sample ! 14)"
  using assms by (simp add: decodeRS41sample_15 be16_def)

text \<open>
  The scenario of the specification: the record above decodes to 20 degrees, 50 percent
  and 200 hPa.
\<close>

theorem decodeRS41sample_layout_witness:
  "length scenario_sample = 15 \<and>
   (\<exists>r. decodeRS41sample scenario_sample = Inr r \<and> valid r = 1 \<and> secs_from_start r = 1
      \<and> air_temp_degC r = 20 \<and> humdity_percent r = 50 \<and> humidity_sensor_temp_degC r = 20
      \<and> pres_mb r = 200 \<and> module_error r = 0)"
  using decodeRS41sample_layout [of scenario_sample] by (simp add: scenario_sample_def)

section \<open>Claims about the RS41 record sequence\<close>

text \<open>
  C2 (as amended). Whenever \<^verbatim>\<open>allRS41samples\<close> returns, it returns at least one
  record; the records are the decoded samples in order, each extended by its absolute
  time; with \<open>first\<close> and \<open>last\<close> the seconds-from-start of the first and the final
  record, each record's absolute time is \<open>start_time\<close> plus its seconds-from-start,
  where \<open>start_time = reference_timestamp - (last - first + 1)\<close>. So the final
  record's absolute time is \<open>reference_timestamp + first - 1\<close>: it is the reference
  timestamp exactly when the first counter is 1.
\<close>

theorem allRS41samples_unix_time:
  assumes "allRS41samples t payload = Inr rs"
  shows "rs \<noteq> [] \<and> RS41_loop payload 6 = Inr (map RS41sample.truncate rs)
     \<and> (\<forall>r \<in> set rs. unix_time r =
           (t - (secs_from_start (last rs) - secs_from_start (hd rs) + 1)) + secs_from_start r)
     \<and> unix_time (last rs) = t + secs_from_start (hd rs) - 1"
proof -
  from assms obtain records where loop: "RS41_loop payload 6 = Inr records"
    and ne: "records \<noteq> []"
    and rs: "rs = map (\<lambda>r. with_unix_time r (secs_from_start r
               + (t - (secs_from_start (last records) - secs_from_start (hd records) + 1)))) records"
    by (auto simp: allRS41samples_def and_then_def Let_def split: sum.splits if_splits)
  have tr: "map RS41sample.truncate rs = records"
    unfolding rs by (simp add: comp_def)
  have hd_rs: "secs_from_start (hd rs) = secs_from_start (hd records)"
    using ne unfolding rs by (simp add: hd_map)
  have last_rs: "secs_from_start (last rs) = secs_from_start (last records)"
    using ne unfolding rs by (simp add: last_map)
  have each: "\<forall>r \<in> set rs. unix_time r =
      (t - (secs_from_start (last records) - secs_from_start (hd records) + 1)) + secs_from_start r"
    unfolding rs by auto
  from ne rs have rs_ne: "rs \<noteq> []" by simp
  then have "last rs \<in> set rs" by (rule last_in_set)
  with each have "unix_time (last rs) =
      (t - (secs_from_start (last records) - secs_from_start (hd records) + 1))
        + secs_from_start (last rs)" by blast
  then have fin: "unix_time (last rs) = t + secs_from_start (hd rs) - 1"
    using hd_rs last_rs by simp
  show ?thesis using rs_ne loop tr each fin hd_rs last_rs by simp
qed

text \<open>Two records with counters 1 and 2 and end time 100 get the times 99 and 100.\<close>

theorem allRS41samples_unix_time_witness:
  "\<exists>rs. allRS41samples 100 two_records_payload = Inr rs \<and> rs \<noteq> []
     \<and> map unix_time rs = [99, 100]
     \<and> unix_time (last rs) = 100 + secs_from_start (hd rs) - 1"
  using allRS41samples_unix_time [OF two_records_eval] two_records_eval by simp

text \<open>
  One record whose counter is 0, in a payload whose reference timestamp is 100: its
  absolute time is 99, not the reference timestamp.
\<close>

theorem final_time_counterexample:
  "timeStamp end_time_payload = Inr 100 \<and>
   map_sum id (map unix_time) (allRS41samples 100 end_time_payload) = Inr [99]"
  by (simp add: end_time_payload_def timeStamp_def unpack_L_def unpack_bytes_def slice_def
      be_uint_def and_then_def allRS41samples_def RS41_loop_step RS41_loop_stop decode_zero Let_def)

text \<open>
  C6. The specification has the decoder stop once fewer than 15 bytes remain before
  the 6-byte trailer, so that no record uses a trailer byte. The loop of the code runs
  while its index is below \<^verbatim>\<open>len(self.bindata)-6\<close> and then slices 15 bytes from that
  index. On the 37-byte payload it returns two records; the second starts at offset 21,
  and its error code \<open>0xBBCC\<close> is read from offsets 34 and 35, inside the last six
  bytes.
\<close>

theorem record_reads_trailer:
  "length straddling_payload = 37 \<and>
   map_sum id (map module_error) (allRS41samples 100 straddling_payload) = Inr [0, 48076] \<and>
   uint (straddling_payload ! 34) * 256 + uint (straddling_payload ! 35) = 48076"
  by (simp add: straddling_payload_def allRS41samples_def RS41_loop_step RS41_loop_stop
      slice_def decode_zero decode_straddling and_then_def Let_def)

text \<open>
  C7. The specification has decoding fail on a payload without a complete record
  between pre-header and trailer. On the 21-byte payload, which holds nine bytes there,
  the code returns one record: the slice from offset 6 runs through the trailer, and
  the error code \<open>0x0506\<close> comes from the last two bytes. (Payloads of at most 20 bytes
  do fail, see the lemmas on \<^verbatim>\<open>allRS41samples\<close> above.)
\<close>

theorem record_from_trailer_only:
  "length short_payload = 21 \<and>
   map_sum id (map module_error) (allRS41samples 100 short_payload) = Inr [1286]"
  by (simp add: short_payload_def allRS41samples_def RS41_loop_step RS41_loop_stop
      slice_def decode_short and_then_def Let_def)

section \<open>Claims about the LPC frames\<close>

text \<open>
  C3 (as amended). For every LPC payload of at least 192 bytes, \<^verbatim>\<open>unpackBinary\<close>
  returns \<open>floor(length / 96) - 2\<close> frames, and frame \<open>y\<close> (from 0) is read from
  offset \<open>36 + (y+1)*96\<close> on: its high-gain bins are the 16-bit numbers at that offset
  plus \<open>2x\<close>, its low-gain bins those 32 bytes further, its housekeeping words those 64
  bytes further. A payload of exactly \<open>96*(N+2)\<close> bytes gives exactly \<open>N\<close> frames.
\<close>

theorem unpackBinary_frames:
  assumes "192 \<le> length payload"
  shows "\<exists>fs. unpackBinary t payload = Inr fs
     \<and> int (length fs) = int (length payload) div 96 - 2
     \<and> (\<forall>y < length fs. \<forall>x < 16.
           HGBins (fs ! y) ! x = real_of_int (be16 payload (36 + (y + 1) * 96 + x * 2))
         \<and> LGBins (fs ! y) ! x = real_of_int (be16 payload (36 + (y + 1) * 96 + x * 2 + 32))
         \<and> HKData (fs ! y) =
             LPC_housekeeping t (map (\<lambda>x. be16 payload (36 + (y + 1) * 96 + x * 2 + 64)) [0..<16]))
     \<and> (\<forall>N. length payload = 96 * (N + 2) \<longrightarrow> length fs = N)"
proof -
  let ?fs = "map (frame_at t payload) [0..<length payload div 96 - 2]"
  have r: "unpackBinary t payload = Inr ?fs"
    using assms by (rule unpackBinary_ok)
  have n: "int (length ?fs) = int (length payload) div 96 - 2"
    using assms by (simp add: zdiv_int)
  have f: "\<forall>y < length ?fs. \<forall>x < 16.
           HGBins (?fs ! y) ! x = real_of_int (be16 payload (36 + (y + 1) * 96 + x * 2))
         \<and> LGBins (?fs ! y) ! x = real_of_int (be16 payload (36 + (y + 1) * 96 + x * 2 + 32))
         \<and> HKData (?fs ! y) =
             LPC_housekeeping t (map (\<lambda>x. be16 payload (36 + (y + 1) * 96 + x * 2 + 64)) [0..<16])"
    by (simp add: frame_at_def del: upt.simps)
  have N: "\<forall>N. length payload = 96 * (N + 2) \<longrightarrow> length ?fs = N"
    by simp
  from r n f N show ?thesis by blast
qed

text \<open>A payload of 288 zero bytes gives one frame.\<close>

theorem unpackBinary_frames_witness:
  "192 \<le> length (replicate 288 (0 :: byte))
   \<and> (\<exists>fs. unpackBinary 0 (replicate 288 0) = Inr fs \<and> length fs = 1)"
  using unpackBinary_frames [of "replicate 288 (0 :: byte)" 0] by auto

text \<open>
  A payload of 100 bytes: the frame count of the formula is -1, and the allocation of
  the arrays raises \<^verbatim>\<open>ValueError\<close>; no frame is decoded.
\<close>

theorem unpackBinary_short_payload:
  "length (replicate 100 (0 :: byte)) = 100 \<and> unpackBinary 0 (replicate 100 0) = Inl ValueError"
  by (simp add: unpackBinary_def)

section \<open>Claims about the container framer\<close>




text \<open>
  C5 (as amended). For every container whose declared Length is larger than the number
  of bytes after the marker \<^verbatim>\<open></CRC>\nSTART\<close> (or after offset 11, if the file has no
  such marker), framing does not fail: it returns exactly the bytes that are there, a
  payload shorter than declared.
\<close>

theorem overdeclared_length_truncates:
  assumes "declared_length lib file = Inr n"
    and "int (length (drop (nat (find file CRC_START + 12)) file)) < n"
  shows "binaryData lib file = Inr (drop (nat (find file CRC_START + 12)) file)"
proof -
  have "find file CRC_START \<ge> - 1"
    using find_cases [of "file" CRC_START] by auto
  then have s: "0 \<le> find file CRC_START + 12" by simp
  have "int (length file) - (find file CRC_START + 12) < n"
    using assms(2) s by simp
  with s have "py_slice file (find file CRC_START + 12) (find file CRC_START + 12 + n)
      = drop (nat (find file CRC_START + 12)) file"
    by (rule py_slice_beyond)
  then show ?thesis
    using assms(1) by (simp add: binaryData_declared and_then_def)
qed

text \<open>
  The file that declares 100 bytes: its 27 bytes from offset 50 on are returned.
\<close>

theorem overdeclared_length_truncates_witness:
  "declared_length ascii_lib overdeclared_file = Inr 100 \<and>
   length (drop 50 overdeclared_file) = 27 \<and>
   binaryData ascii_lib overdeclared_file = Inr (drop 50 overdeclared_file)"
proof -
  have l: "length overdeclared_file = 77"
    by code_simp
  have "int (length (drop (nat (find overdeclared_file CRC_START + 12)) overdeclared_file)) < 100"
    by (simp add: overdeclared_marker l)
  from overdeclared_length_truncates [OF overdeclared_length this]
  show ?thesis using l by (simp add: overdeclared_marker overdeclared_length)
qed

text \<open>
  The same file against the claim as stated: no error, a payload of 27 bytes for a
  declared length of 100, and the record decoder goes on to return a record.
\<close>

theorem overdeclared_length_counterexample:
  "declared_length ascii_lib overdeclared_file = Inr 100 \<and>
   binaryData ascii_lib overdeclared_file = Inr end_time_payload \<and>
   length end_time_payload = 27 \<and>
   map_sum id (\<lambda>(msg, records). map unix_time records)
     (RS41msg_init ascii_lib overdeclared_file) = Inr [99]"
  by (simp add: overdeclared_length overdeclared_binary RS41msg_init_eval [OF overdeclared_binary])
     (simp add: end_time_payload_def)

text \<open>
  C8 (as amended). For every container whose marker \<^verbatim>\<open></CRC>\nSTART\<close> is found at
  offset \<open>k\<close> and which holds the declared \<open>Length\<close> bytes after it, the payload
  returned by framing begins at offset \<open>k + 12\<close> and spans exactly \<open>Length\<close> bytes.
  The closing delimiter \<^verbatim>\<open></CRC>\<close> occupies offsets \<open>k\<close> to \<open>k + 5\<close>: the payload
  begins 12 bytes past its first byte, that is 6 bytes past its end.
\<close>

theorem payload_position:
  assumes "declared_length lib file = Inr n" and "0 \<le> n"
    and "find file CRC_START = int k" and "k + 12 + nat n \<le> length file"
  shows "binaryData lib file = Inr (slice file (k + 12) (k + 12 + nat n))
     \<and> length (slice file (k + 12) (k + 12 + nat n)) = nat n
     \<and> slice file k (k + 6) = bytes ''</CRC>''
     \<and> slice file k (k + 12) = CRC_START"
proof -
  have "py_slice file (int (k + 12)) (int (k + 12) + n) = slice file (k + 12) (k + 12 + nat n)"
    using assms(2,4) by (intro py_slice_inside) simp_all
  then have r: "binaryData lib file = Inr (slice file (k + 12) (k + 12 + nat n))"
    using assms(1,3) by (simp add: binaryData_declared and_then_def)
  have l: "length (slice file (k + 12) (k + 12 + nat n)) = nat n"
    using assms(4) by (simp add: slice_def)
  have len: "length CRC_START = 12" by (simp add: CRC_START_def)
  from find_found [OF assms(3)] have m: "take 12 (drop k file) = CRC_START"
    by (simp add: len)
  then have m12: "slice file k (k + 12) = CRC_START" by (simp add: slice_def)
  have "take 6 (take 12 (drop k file)) = take 6 CRC_START" using m by simp
  then have "take 6 (drop k file) = bytes ''</CRC>''"
    by (simp add: CRC_START_def bytes_def)
  then have m6: "slice file k (k + 6) = bytes ''</CRC>''" by (simp add: slice_def)
  from r l m6 m12 show ?thesis by simp
qed

text \<open>
  The complete container: marker at offset 37, payload at offsets 49 to 75.
\<close>

theorem payload_position_witness:
  "declared_length ascii_lib crc_file = Inr 27 \<and> find crc_file CRC_START = 37 \<and>
   binaryData ascii_lib crc_file = Inr (slice crc_file 49 76) \<and>
   slice crc_file 49 76 = end_time_payload \<and> slice crc_file 37 43 = bytes ''</CRC>''"
proof -
  have "(37 :: int) = int 37" by simp
  then have m: "find crc_file CRC_START = int 37" using crc_file_marker by simp
  have "37 + 12 + nat 27 \<le> length crc_file" by (simp add: crc_file_size)
  from payload_position [OF crc_file_length _ m this]
  show ?thesis by (simp add: crc_file_length crc_file_marker crc_file_payload)
qed

text \<open>
  The same container against the claim as stated: the closing delimiter ends at offset
  43, and the 27 bytes that begin 12 bytes later are not the payload.
\<close>

theorem payload_position_counterexample:
  "declared_length ascii_lib crc_file = Inr 27 \<and>
   find crc_file (bytes ''</CRC>'') = 37 \<and> length (bytes ''</CRC>'') = 6 \<and>
   binaryData ascii_lib crc_file = Inr end_time_payload \<and>
   slice crc_file (37 + 6 + 12) (37 + 6 + 12 + 27) \<noteq> end_time_payload"
proof -
  have "binaryData ascii_lib crc_file = Inr end_time_payload"
    by code_simp
  then show ?thesis
    using crc_file_length crc_file_close crc_file_later by simp
qed

section \<open>Claims about the vapor-pressure model\<close>




text \<open>
  C10 (as amended). The mixing ratio is the quotient of the vapor pressure \<open>ew\<close> by
  \<open>p - ew\<close>, times a million, and nothing guards the division, in the function or on
  the way from a record to it: every 15-byte record reaches the division with the
  pressure and the vapor pressure decoded from its bytes. The result is finite whenever
  \<open>ew\<close> differs from \<open>p\<close>. The denominator is positive exactly when \<open>ew < p\<close>; when that
  fails it is zero, and the result is not finite (numpy's \<^verbatim>\<open>inf\<close> or \<^verbatim>\<open>nan\<close>), or it
  is negative, and the result is the finite quotient over that negative denominator.
\<close>

theorem WV_mixing_ratio_division:
  "WV_mixing_ratio (Finite ew) p =
     (if p - ew = 0 then NonFinite else Finite (ew / (p - ew) * 1000000))
   \<and> (0 < p - ew \<longleftrightarrow> ew < p)
   \<and> (\<not> ew < p \<longrightarrow> p - ew = 0 \<or> p - ew < 0)
   \<and> (length sample = 15 \<longrightarrow>
        (\<exists>r es. decodeRS41sample sample = Inr r
           \<and> Hardy_1998 (real_of_int (be16 sample 9) / 100 - 100) = Inr (Finite es)
           \<and> pres_mb r = real_of_int (be16 sample 11) / 50
           \<and> wv_mixing_ratio_ppmv r =
               WV_mixing_ratio (Finite (es * (real_of_int (be16 sample 7) / 100) / 100))
                 (real_of_int (be16 sample 11) / 50)))"
proof -
  have a: "WV_mixing_ratio (Finite ew) p =
     (if p - ew = 0 then NonFinite else Finite (ew / (p - ew) * 1000000))"
    by (rule WV_mixing_ratio_Finite)
  have b: "0 < p - ew \<longleftrightarrow> ew < p" by auto
  have c: "\<not> ew < p \<longrightarrow> p - ew = 0 \<or> p - ew < 0" by auto
  have d: "length sample = 15 \<longrightarrow>
        (\<exists>r es. decodeRS41sample sample = Inr r
           \<and> Hardy_1998 (real_of_int (be16 sample 9) / 100 - 100) = Inr (Finite es)
           \<and> pres_mb r = real_of_int (be16 sample 11) / 50
           \<and> wv_mixing_ratio_ppmv r =
               WV_mixing_ratio (Finite (es * (real_of_int (be16 sample 7) / 100) / 100))
                 (real_of_int (be16 sample 11) / 50))"
  proof
    assume l: "length sample = 15"
    have "Hardy_1998 (real_of_int (be16 sample 9) / 100 - 100)
        = Inr (Finite (es_hPa (real_of_int (be16 sample 9) / 100 - 100)))"
      using record_temperature_range [of "be16 sample 9"] be16_range [of sample 9]
      by (simp add: Hardy_1998_es)
    then show "\<exists>r es. decodeRS41sample sample = Inr r
           \<and> Hardy_1998 (real_of_int (be16 sample 9) / 100 - 100) = Inr (Finite es)
           \<and> pres_mb r = real_of_int (be16 sample 11) / 50
           \<and> wv_mixing_ratio_ppmv r =
               WV_mixing_ratio (Finite (es * (real_of_int (be16 sample 7) / 100) / 100))
                 (real_of_int (be16 sample 11) / 50)"
      using l by (simp add: decodeRS41sample_15)
  qed
  from a b c d show ?thesis by blast
qed

text \<open>
  Vapor pressure 1 under pressure 2; vapor pressure equal to the pressure; and the
  record of zero bytes, whose pressure and vapor pressure are both 0.
\<close>

theorem WV_mixing_ratio_division_witness:
  "WV_mixing_ratio (Finite 1) 2 = Finite 1000000
   \<and> \<not> (2 :: real) < 2 \<and> WV_mixing_ratio (Finite 2) 2 = NonFinite
   \<and> length [0, 0, 0, 0, 0, 0, 0, 0, 0, 0, 0, 0, 0, 0, 0 :: byte] = 15
   \<and> (\<exists>r. decodeRS41sample [0, 0, 0, 0, 0, 0, 0, 0, 0, 0, 0, 0, 0, 0, 0] = Inr r
         \<and> pres_mb r = 0 \<and> wv_mixing_ratio_ppmv r = NonFinite)"
proof -
  let ?z = "[0, 0, 0, 0, 0, 0, 0, 0, 0, 0, 0, 0, 0, 0, 0 :: byte]"
  have z: "be16 ?z 7 = 0" "be16 ?z 11 = 0"
    by (simp_all add: be16_def)
  from WV_mixing_ratio_division [of 0 0 ?z]
  have "\<exists>r. decodeRS41sample ?z = Inr r \<and> pres_mb r = 0 \<and> wv_mixing_ratio_ppmv r = NonFinite"
    unfolding z by (auto simp: WV_mixing_ratio_Finite)
  then show ?thesis
    using WV_mixing_ratio_division [of 1 2] WV_mixing_ratio_division [of 2 2] by simp
qed

text \<open>
  Against the claim as stated: with vapor pressure 3 under pressure 2 the precondition
  fails and the result is finite. The same happens on the way from a record: the
  record with 50 percent humidity at 20 degrees and pressure 0 decodes to the mixing
  ratio -1000000.
\<close>

theorem WV_mixing_ratio_finite_without_precondition:
  "\<not> (3 :: real) < 2 \<and> WV_mixing_ratio (Finite 3) 2 = Finite (- 3000000)
   \<and> map_sum id (\<lambda>r. (humdity_percent r, pres_mb r, wv_mixing_ratio_ppmv r))
       (decodeRS41sample zero_pressure_sample) = Inr (50, 0, Finite (- 1000000))"
proof -
  have l: "length zero_pressure_sample = 15"
    by (simp add: zero_pressure_sample_def)
  have f: "real_of_int (be16 zero_pressure_sample 7) / 100 = 50"
    "real_of_int (be16 zero_pressure_sample 9) / 100 - 100 = 20"
    "real_of_int (be16 zero_pressure_sample 11) / 50 = 0"
    by (simp_all add: zero_pressure_sample_def be16_def)
  have "es_hPa 20 * 50 / 100 \<noteq> 0"
    using es_hPa_pos [of 20] by simp
  then have "WV_mixing_ratio (Finite (es_hPa 20 * 50 / 100)) 0 = Finite (- 1000000)"
    by (simp add: WV_mixing_ratio_Finite)
  then have "map_sum id (\<lambda>r. (humdity_percent r, pres_mb r, wv_mixing_ratio_ppmv r))
       (decodeRS41sample zero_pressure_sample) = Inr (50, 0, Finite (- 1000000))"
    by (simp add: decodeRS41sample_15 [OF l] f)
  then show ?thesis by (simp add: WV_mixing_ratio_Finite)
qed

end
